theory Spec2Isabelle
  imports Complex_Main "HOL-Library.Multiset"
begin

section \<open>Python and NumPy primitives used by the notebook\<close>

text \<open>
  The notebook \<^verbatim>\<open>Main_notebook.ipynb\<close> is modelled cell by cell: the resolution
  (Step I), the shuffle and the train/validation partition (Step II), and the ingestion
  of the external JHMAP trajectories (Step IV). Python floats are modelled by the reals
  (every finite double is a rational number; rounding is not modelled); what the reals
  do not have, the outcome of a NumPy division by zero, is made explicit in \<open>npfloat\<close>.
  Exceptions are values of the type \<open>error\<close>. What the notebook takes from outside is a
  parameter: the index array that the random generator draws for the shuffle, and the
  file system that \<^verbatim>\<open>np.loadtxt\<close> reads.
\<close>

datatype error =
    InconsistentLength nat nat
      \<comment> \<open>sklearn's \<^verbatim>\<open>shuffle\<close>: ValueError, input arrays with different numbers of samples\<close>
  | LoadError string
      \<comment> \<open>\<^verbatim>\<open>np.loadtxt\<close> could not read or parse the file (the spec's FormatError)\<close>
  | EmptyMax
      \<comment> \<open>\<^verbatim>\<open>max()\<close> of an empty sequence: ValueError\<close>
  | ShapeError nat "nat list"
      \<comment> \<open>\<^verbatim>\<open>reshape\<close>: ValueError, cannot reshape array of size n into shape s\<close>
  | ConfigurationError int
      \<comment> \<open>an entry of a curated table whose label is not 0 or 1 (spec only)\<close>

text \<open>\<^verbatim>\<open>int(x)\<close> on a float truncates towards zero.\<close>

definition py_int :: "real \<Rightarrow> int" where
  "py_int x = (if 0 \<le> x then \<lfloor>x\<rfloor> else \<lceil>x\<rceil>)"

text \<open>
  A slice bound \<open>i\<close> on a sequence of length \<open>n\<close>: a negative bound counts from the
  end, and every bound is clamped into \<open>0..n\<close>. \<^verbatim>\<open>d[:k]\<close> and \<^verbatim>\<open>d[k:]\<close> follow.
\<close>

definition slice_index :: "int \<Rightarrow> nat \<Rightarrow> nat" where
  "slice_index i n = (if i < 0 then nat (max 0 (i + int n)) else min (nat i) n)"

definition slice_upto :: "'a list \<Rightarrow> int \<Rightarrow> 'a list" where
  "slice_upto d k = take (slice_index k (length d)) d"

definition slice_from :: "'a list \<Rightarrow> int \<Rightarrow> 'a list" where
  "slice_from d k = drop (slice_index k (length d)) d"

section \<open>Step II: shuffle and train/validation partition\<close>

text \<open>
  \<^verbatim>\<open>sklearn.utils.shuffle(X_train, y)\<close> checks that the arrays have the same number of
  samples, draws one index array from NumPy's process-wide generator and indexes every
  array with it. The index array \<open>p\<close> that the generator draws is a parameter of the
  model; \<open>is_permutation p n\<close> says that it is a permutation of \<open>range(n)\<close>.
\<close>

definition is_permutation :: "nat list \<Rightarrow> nat \<Rightarrow> bool" where
  "is_permutation p n = (sort p = [0..<n])"

definition shuffle :: "nat list \<Rightarrow> 'a list \<Rightarrow> 'b list \<Rightarrow> error + ('a list \<times> 'b list)" where
  "shuffle p X y =
     (if length X \<noteq> length y then Inl (InconsistentLength (length X) (length y))
      else Inr (map ((!) X) p, map ((!) y) p))"

text \<open>
  \<^verbatim>\<open>data_train = [d[:int((frac)*Np)] for d in data_SM]\<close> and
  \<^verbatim>\<open>data_val = [d[-int((1-frac)*Np):] for d in data_SM]\<close>, where \<open>data_SM\<close> is the
  shuffled pair of orbits and labels.
\<close>

definition data_train :: "real \<Rightarrow> int \<Rightarrow> 'a list \<times> 'b list \<Rightarrow> 'a list \<times> 'b list" where
  "data_train frac' Np data_SM =
     (slice_upto (fst data_SM) (py_int (frac' * real_of_int Np)),
      slice_upto (snd data_SM) (py_int (frac' * real_of_int Np)))"

definition data_val :: "real \<Rightarrow> int \<Rightarrow> 'a list \<times> 'b list \<Rightarrow> 'a list \<times> 'b list" where
  "data_val frac' Np data_SM =
     (slice_from (fst data_SM) (- py_int ((1 - frac') * real_of_int Np)),
      slice_from (snd data_SM) (- py_int ((1 - frac') * real_of_int Np)))"

text \<open>
  The whole cell: \<open>Np\<close> is the length of the orbit array before the shuffle. The result
  is the pair (training data, validation data).
\<close>

definition train_val_split ::
  "nat list \<Rightarrow> real \<Rightarrow> 'a list \<Rightarrow> 'b list \<Rightarrow>
     error + (('a list \<times> 'b list) \<times> ('a list \<times> 'b list))" where
  "train_val_split p frac' X_train y =
     (let Np = int (length X_train) in
      case shuffle p X_train y of
        Inl e \<Rightarrow> Inl e
      | Inr data_SM \<Rightarrow> Inr (data_train frac' Np data_SM, data_val frac' Np data_SM))"

section \<open>Step I: the grid resolution\<close>

text \<open>
  \<^verbatim>\<open>res = int(np.sqrt(2*n_points))\<close>, with the comment "must be integer". The
  notebook fixes \<open>n_points = 450\<close>; the model takes it as an argument.
\<close>

definition res :: "nat \<Rightarrow> nat" where
  "res n_points = nat (py_int (sqrt (real (2 * n_points))))"

text \<open>
  The real square root does not compute. \<open>floor_sqrt\<close> is the integer square root by
  halving; it is proved below to be the code equation of \<open>res\<close>, so that \<open>res\<close> and the
  ingestion evaluate on concrete inputs. (\<^verbatim>\<open>np.sqrt\<close> is correctly rounded, so for
  \<open>2 * n_points\<close> below \<open>2^52\<close> the truncated float square root is this integer.)
\<close>

fun floor_sqrt :: "nat \<Rightarrow> nat" where
  "floor_sqrt n =
     (if n = 0 then 0
      else let r = 2 * floor_sqrt (n div 4)
           in if (r + 1) * (r + 1) \<le> n then r + 1 else r)"

declare floor_sqrt.simps [simp del]

section \<open>Step IV: ingestion of the external JHMAP trajectories\<close>

text \<open>
  A NumPy float: a finite value, or what a division by zero leaves behind. NumPy's
  division of float64 scalars raises nothing: \<open>x / 0\<close> is \<open>inf\<close>, \<open>-inf\<close> or, for
  \<open>x = 0\<close>, \<open>nan\<close>.
\<close>

datatype npfloat = Fin real | PInf | NInf | NaN

definition np_div :: "real \<Rightarrow> real \<Rightarrow> npfloat" where
  "np_div a b =
     (if b \<noteq> 0 then Fin (a / b)
      else if 0 < a then PInf
      else if a < 0 then NInf
      else NaN)"

text \<open>Python's \<^verbatim>\<open>max\<close> over a sequence: an empty sequence raises.\<close>

fun py_max :: "real list \<Rightarrow> error + real" where
  "py_max [] = Inl EmptyMax"
| "py_max (x # xs) = Inr (fold max xs x)"

text \<open>
  The table that \<^verbatim>\<open>np.loadtxt\<close> reads from a two-column file (of at least two rows) is
  a list of rows \<open>(x, y)\<close>; \<^verbatim>\<open>test_i[:,0]\<close> and \<^verbatim>\<open>test_i[:,1]\<close> are its columns.
\<close>

type_synonym table = "(real \<times> real) list"

definition column0 :: "table \<Rightarrow> real list" where
  "column0 test_i = map fst test_i"

definition column1 :: "table \<Rightarrow> real list" where
  "column1 test_i = map snd test_i"

text \<open>
  The inner loop, \<^verbatim>\<open>for i in range(0,len(test_i))\<close>: every row is divided, axis by
  axis, by the largest absolute value of its column. The first argument is the whole
  table, the second the rows still to visit.
\<close>

fun normalise_rows :: "table \<Rightarrow> table \<Rightarrow> error + (npfloat \<times> npfloat) list" where
  "normalise_rows test_i [] = Inr []"
| "normalise_rows test_i (row # rest) =
     (case py_max (map abs (column0 test_i)) of
        Inl e \<Rightarrow> Inl e
      | Inr m0 \<Rightarrow>
          (case py_max (map abs (column1 test_i)) of
             Inl e \<Rightarrow> Inl e
           | Inr m1 \<Rightarrow>
               (case normalise_rows test_i rest of
                  Inl e \<Rightarrow> Inl e
                | Inr testX \<Rightarrow> Inr ((np_div (fst row) m0, np_div (snd row) m1) # testX))))"

text \<open>
  A NumPy array: its shape and its elements in row-major (C) order.
  \<^verbatim>\<open>np.array(testX)\<close> of a list of two-element rows has shape \<open>(len, 2)\<close>, and shape
  \<open>(0,)\<close> when the list is empty. \<^verbatim>\<open>reshape(r, c)\<close> keeps the elements in their order
  and raises when the sizes differ.
\<close>

record ndarray =
  shape :: "nat list"
  elems :: "npfloat list"

definition np_size :: "ndarray \<Rightarrow> nat" where
  "np_size a = prod_list (shape a)"

definition np_array :: "(npfloat \<times> npfloat) list \<Rightarrow> ndarray" where
  "np_array testX =
     \<lparr>shape = (if testX = [] then [0] else [length testX, 2]),
      elems = concat (map (\<lambda>row. [fst row, snd row]) testX)\<rparr>"

definition reshape :: "ndarray \<Rightarrow> nat \<Rightarrow> nat \<Rightarrow> error + ndarray" where
  "reshape a r c =
     (if np_size a = r * c then Inr \<lparr>shape = [r, c], elems = elems a\<rparr>
      else Inl (ShapeError (np_size a) [r, c]))"

text \<open>Element \<open>(i, j)\<close> of a two-dimensional array in row-major order.\<close>

definition cell :: "ndarray \<Rightarrow> nat \<Rightarrow> nat \<Rightarrow> npfloat" where
  "cell a i j = elems a ! (i * (shape a ! 1) + j)"

text \<open>
  The body of the outer loop after the file is read: normalise the rows, build the
  array and reshape it to \<open>r \<times> r\<close> (in the notebook \<open>r\<close> is the global \<open>res\<close>).
\<close>

definition discretize :: "table \<Rightarrow> nat \<Rightarrow> error + ndarray" where
  "discretize test_i r =
     (case normalise_rows test_i test_i of
        Inl e \<Rightarrow> Inl e
      | Inr testX \<Rightarrow> reshape (np_array testX) r r)"

text \<open>
  One file: \<^verbatim>\<open>np.loadtxt(folder_i)[:n_points]\<close>, then the body above. The file system
  is the parameter \<open>loadtxt\<close>, from the path to the table read or the error raised.
\<close>

definition folder :: "string \<Rightarrow> string" where
  "folder file_i = ''/home/saltas/chaos/final/external_orbits/JHMAP'' @ file_i @ ''.dat''"

definition ingest :: "(string \<Rightarrow> error + table) \<Rightarrow> nat \<Rightarrow> string \<Rightarrow> error + ndarray" where
  "ingest loadtxt n_points file_i =
     (case loadtxt (folder file_i) of
        Inl e \<Rightarrow> Inl e
      | Inr tbl \<Rightarrow> discretize (take n_points tbl) (res n_points))"

text \<open>
  The outer loop over \<open>data\<close>, the list of (file name, class) pairs. The two lists it
  appends to are the state; an exception stops the loop and leaves the lists as they
  are at that moment.
\<close>

record jhmap_state =
  data_JHMAP_orbits :: "ndarray list"
  data_JHMAP_labels :: "int list"

fun ingest_loop ::
  "(string \<Rightarrow> error + table) \<Rightarrow> nat \<Rightarrow> (string \<times> int) list \<Rightarrow> jhmap_state \<Rightarrow>
     error option \<times> jhmap_state" where
  "ingest_loop loadtxt n_points [] s = (None, s)"
| "ingest_loop loadtxt n_points (data_i # rest) s =
     (case ingest loadtxt n_points (fst data_i) of
        Inl e \<Rightarrow> (Some e, s)
      | Inr testX \<Rightarrow>
          ingest_loop loadtxt n_points rest
            (s\<lparr>data_JHMAP_orbits := data_JHMAP_orbits s @ [testX],
               data_JHMAP_labels := data_JHMAP_labels s @ [snd data_i]\<rparr>))"

definition data :: "(string \<times> int) list" where
  "data =
     [(''001'', 1), (''002'', 1), (''003'', 0), (''004'', 0), (''005'', 0), (''006'', 0),
      (''007'', 1), (''008'', 1), (''009'', 1), (''010'', 1), (''011'', 0), (''012'', 0),
      (''013'', 0), (''014'', 0), (''015'', 0), (''016'', 0), (''017'', 0), (''018'', 0),
      (''019'', 1), (''020'', 1), (''021'', 1)]"

definition data_JHMAP ::
  "(string \<Rightarrow> error + table) \<Rightarrow> nat \<Rightarrow> error option \<times> jhmap_state" where
  "data_JHMAP loadtxt n_points =
     ingest_loop loadtxt n_points data \<lparr>data_JHMAP_orbits = [], data_JHMAP_labels = []\<rparr>"

section \<open>Dataset assembly\<close>

text \<open>
  Modelled from the spec: the assemblers \<^verbatim>\<open>load_data_SM\<close>, \<^verbatim>\<open>load_data_deVog\<close> and
  \<^verbatim>\<open>load_data_Web\<close> live in \<^verbatim>\<open>generate_data.py\<close>, which is not among the sources.
  The spec (4.3): a curated list of entries \<open>(K, x0, y0, label, multiplier)\<close>; for every
  entry the map simulator and then the grid discretizer are invoked, the grid is
  accumulated into the Grids sequence and the label into the Labels sequence, in entry
  order; an entry whose label is not 0 or 1 is rejected with a ConfigurationError. The
  simulator followed by the discretizer is the parameter \<open>make_grid\<close>.
\<close>

record entry =
  K :: real
  x0 :: real
  y0 :: real
  label :: int
  multiplier :: nat

fun assemble ::
  "(entry \<Rightarrow> error + 'g) \<Rightarrow> entry list \<Rightarrow> 'g list \<times> int list \<Rightarrow> error + ('g list \<times> int list)" where
  "assemble make_grid [] acc = Inr acc"
| "assemble make_grid (e # es) acc =
     (if label e \<noteq> 0 \<and> label e \<noteq> 1 then Inl (ConfigurationError (label e))
      else case make_grid e of
        Inl err \<Rightarrow> Inl err
      | Inr g \<Rightarrow> assemble make_grid es (fst acc @ [g], snd acc @ [label e]))"

section \<open>Facts about the primitives\<close>


lemma is_permutation_length: "is_permutation p n \<Longrightarrow> length p = n"
proof -
  assume "is_permutation p n"
  then have "length (sort p) = length [0..<n]"
    by (simp add: is_permutation_def)
  then show ?thesis by simp
qed

lemma is_permutation_mset: "is_permutation p n \<Longrightarrow> mset p = mset [0..<n]"
proof -
  assume "is_permutation p n"
  then have "mset (sort p) = mset [0..<n]"
    by (simp add: is_permutation_def)
  then show ?thesis by simp
qed

lemma is_permutation_set: "is_permutation p n \<Longrightarrow> set p = {0..<n}"
proof -
  assume "is_permutation p n"
  then have "set (sort p) = set [0..<n]"
    by (simp add: is_permutation_def)
  then show ?thesis by simp
qed


lemma slice_from_zero: "slice_from d 0 = d"
  by (simp add: slice_from_def slice_index_def)



section \<open>The partition: slices and their lengths\<close>

lemma shuffle_ok: "length X = length y \<Longrightarrow> shuffle p X y = Inr (map ((!) X) p, map ((!) y) p)"
  by (simp add: shuffle_def)

lemma train_val_split_ok:
  "length X = length y \<Longrightarrow>
   train_val_split p f X y =
     Inr (data_train f (int (length X)) (map ((!) X) p, map ((!) y) p),
          data_val f (int (length X)) (map ((!) X) p, map ((!) y) p))"
  by (simp add: train_val_split_def shuffle_ok Let_def)



lemma data_val_whole:
  assumes "py_int ((1 - f) * real_of_int Np) = 0"
  shows "data_val f Np d = d"
  using assms by (simp add: data_val_def slice_from_zero)




section \<open>The empty validation count, and the resolution\<close>

text \<open>
  When the validation count \<open>floor((1 - f) * N)\<close> is positive, the training range
  \<open>[0, floor(f * N))\<close> ends before the validation range \<open>[N - floor((1 - f) * N), N)\<close>
  starts.
\<close>

lemma split_ranges_disjoint:
  fixes f :: real
  assumes "0 \<le> f" "f \<le> 1" "0 < \<lfloor>(1 - f) * real N\<rfloor>"
  shows "nat \<lfloor>f * real N\<rfloor> \<le> N - nat \<lfloor>(1 - f) * real N\<rfloor>"
proof -
  have sum: "f * real N + (1 - f) * real N = real N"
    by (simp add: algebra_simps)
  have "real_of_int \<lfloor>f * real N\<rfloor> + real_of_int \<lfloor>(1 - f) * real N\<rfloor>
      \<le> f * real N + (1 - f) * real N"
    by (intro add_mono of_int_floor_le)
  then have "real_of_int (\<lfloor>f * real N\<rfloor> + \<lfloor>(1 - f) * real N\<rfloor>) \<le> real N"
    unfolding sum by simp
  then have "\<lfloor>f * real N\<rfloor> + \<lfloor>(1 - f) * real N\<rfloor> \<le> int N"
    by linarith
  moreover have "0 \<le> \<lfloor>f * real N\<rfloor>" using assms(1) by simp
  ultimately show ?thesis using assms(3) by linarith
qed

text \<open>
  Claim C9. When \<open>int((1 - f) * N) = 0\<close> the slice \<^verbatim>\<open>d[-0:]\<close> is \<^verbatim>\<open>d[0:]\<close>: the
  validation subset is the entire shuffled dataset, and it is not empty unless the
  dataset is.
\<close>

theorem val_is_whole_when_count_zero:
  fixes f :: real
  assumes "length X = N" "length y = N" "is_permutation p N"
    and "py_int ((1 - f) * real N) = 0"
  shows "\<exists>tr va. train_val_split p f X y = Inr (tr, va)
     \<and> va = data_val f (int N) (map ((!) X) p, map ((!) y) p)
     \<and> va = (map ((!) X) p, map ((!) y) p)
     \<and> length (fst va) = N \<and> length (snd va) = N
     \<and> (0 < N \<longrightarrow> fst va \<noteq> [] \<and> snd va \<noteq> [])"
proof -
  have lp: "length p = N" using assms(3) by (rule is_permutation_length)
  have "py_int ((1 - f) * real_of_int (int N)) = 0" using assms(4) by simp
  then have va: "data_val f (int N) (map ((!) X) p, map ((!) y) p) = (map ((!) X) p, map ((!) y) p)"
    by (rule data_val_whole)
  have sp: "train_val_split p f X y =
      Inr (data_train f (int N) (map ((!) X) p, map ((!) y) p),
           data_val f (int N) (map ((!) X) p, map ((!) y) p))"
    using assms(1,2) train_val_split_ok[of X y p f] by simp
  show ?thesis
    unfolding sp va using lp by auto
qed

theorem val_is_whole_when_count_zero_witness:
  "\<exists>tr. train_val_split [2, 0, 1] 1 [10, 20, 30 :: int] [1, 0, 1 :: int]
           = Inr (tr, ([30, 10, 20], [1, 1, 0]))"
proof -
  have h1: "length [10, 20, 30 :: int] = 3" by simp
  have h2: "length [1, 0, 1 :: int] = 3" by simp
  have h3: "is_permutation [2, 0, 1] 3" by code_simp
  have h4: "py_int ((1 - 1) * real (3::nat)) = 0" by (simp add: py_int_def)
  show ?thesis
    using val_is_whole_when_count_zero[OF h1 h2 h3 h4] by simp
qed

text \<open>
  Claim C4. The notebook's comment reads "fraction of dataset to use for training, the
  rest (1-frac) is for validation". With the default \<open>frac = 2/3\<close> and a dataset of two
  entries, \<open>int((1 - frac) * Np) = 0\<close>, the validation subset is the whole shuffled
  dataset and the one training entry is also a validation entry.
\<close>

theorem split_overlap_at_small_dataset:
  "train_val_split [1, 0] (2 / 3) [10, 20 :: int] [1, 0 :: int]
     = Inr (([20], [0]), ([20, 10], [0, 1]))
   \<and> is_permutation [1, 0] 2
   \<and> py_int ((1 - 2 / 3) * real (2::nat)) = 0"
  by code_simp

text \<open>
  The resolution: \<open>int\<close> of a non-negative square root is its floor, which is
  characterised without reals.
\<close>

lemma real_le_sqrt_iff: "real r \<le> sqrt (real m) \<longleftrightarrow> r * r \<le> m"
proof -
  have "real r \<le> sqrt (real m) \<longleftrightarrow> sqrt (real (r * r)) \<le> sqrt (real m)"
    by (simp add: real_sqrt_mult)
  also have "\<dots> \<longleftrightarrow> r * r \<le> m"
    by (simp only: real_sqrt_le_iff of_nat_le_iff)
  finally show ?thesis .
qed

lemma sqrt_less_real_iff: "sqrt (real m) < real r \<longleftrightarrow> m < r * r"
  using real_le_sqrt_iff[of r m] by linarith



lemma res_floor: "int (res n) = \<lfloor>sqrt (real (2 * n))\<rfloor>"
  by (simp add: res_def py_int_def)

lemma res_eq_iff: "res n = r \<longleftrightarrow> r * r \<le> 2 * n \<and> 2 * n < (r + 1) * (r + 1)"
proof -
  define x where "x = sqrt (real (2 * n))"
  have "res n = r \<longleftrightarrow> \<lfloor>x\<rfloor> = int r"
    using res_floor[of n] unfolding x_def by auto
  also have "\<dots> \<longleftrightarrow> real_of_int (int r) \<le> x \<and> x < real_of_int (int r) + 1"
    by (rule floor_eq_iff)
  also have "\<dots> \<longleftrightarrow> real r \<le> x \<and> x < real (r + 1)"
    by (simp add: add.commute)
  also have "\<dots> \<longleftrightarrow> r * r \<le> 2 * n \<and> 2 * n < (r + 1) * (r + 1)"
    unfolding x_def by (simp only: real_le_sqrt_iff sqrt_less_real_iff)
  finally show ?thesis .
qed


lemma res_450: "res 450 = 30"
  by (simp add: res_eq_iff)







section \<open>The resolution computes; the column maximum\<close>

lemma floor_sqrt_bounds:
  "floor_sqrt n * floor_sqrt n \<le> n \<and> n < (floor_sqrt n + 1) * (floor_sqrt n + 1)"
proof (induction n rule: floor_sqrt.induct)
  case (1 n)
  show ?case
  proof (cases "n = 0")
    case True
    then show ?thesis by (simp add: floor_sqrt.simps)
  next
    case False
    define s where "s = floor_sqrt (n div 4)"
    from "1.IH"[OF False] have lo: "s * s \<le> n div 4" and hi: "n div 4 < (s + 1) * (s + 1)"
      by (simp_all add: s_def)
    have lo': "(2 * s) * (2 * s) \<le> n"
    proof -
      have "4 * (s * s) \<le> 4 * (n div 4)" using lo by simp
      also have "\<dots> \<le> n" by simp
      finally show ?thesis by (simp add: algebra_simps)
    qed
    have hi': "n < (2 * s + 2) * (2 * s + 2)"
    proof -
      have "n div 4 + 1 \<le> (s + 1) * (s + 1)" using hi by simp
      then have "4 * (n div 4 + 1) \<le> 4 * ((s + 1) * (s + 1))" by simp
      moreover have "n < 4 * (n div 4 + 1)" by simp
      ultimately have "n < 4 * ((s + 1) * (s + 1))" by linarith
      then show ?thesis by (simp add: algebra_simps)
    qed
    have eq: "floor_sqrt n = (if (2 * s + 1) * (2 * s + 1) \<le> n then 2 * s + 1 else 2 * s)"
      using False by (subst floor_sqrt.simps) (simp add: s_def Let_def)
    show ?thesis
    proof (cases "(2 * s + 1) * (2 * s + 1) \<le> n")
      case True
      with eq hi' show ?thesis by (simp add: algebra_simps)
    next
      case False
      with eq lo' show ?thesis by (simp add: algebra_simps)
    qed
  qed
qed

lemma res_code [code]: "res n_points = floor_sqrt (2 * n_points)"
  using floor_sqrt_bounds[of "2 * n_points"] by (simp add: res_eq_iff)

lemma py_max_abs_ok:
  assumes "c \<noteq> []"
  shows "py_max (map abs c) = Inr (Max (abs ` set c))"
proof (cases c)
  case Nil
  with assms show ?thesis by simp
next
  case (Cons x xs)
  have "fold max (map abs xs) \<bar>x\<bar> = Max (set (map abs (x # xs)))"
    by (simp only: Max.set_eq_fold list.map)
  then show ?thesis using Cons by simp
qed

section \<open>Discretization and its shape error\<close>

lemma py_max_column0:
  "t \<noteq> [] \<Longrightarrow> py_max (map abs (column0 t)) = Inr (Max (abs ` fst ` set t))"
  using py_max_abs_ok[of "column0 t"] by (simp add: column0_def image_image)

lemma py_max_column1:
  "t \<noteq> [] \<Longrightarrow> py_max (map abs (column1 t)) = Inr (Max (abs ` snd ` set t))"
  using py_max_abs_ok[of "column1 t"] by (simp add: column1_def image_image)

lemma normalise_rows_map:
  assumes "py_max (map abs (column0 t)) = Inr m0" "py_max (map abs (column1 t)) = Inr m1"
  shows "normalise_rows t rest = Inr (map (\<lambda>row. (np_div (fst row) m0, np_div (snd row) m1)) rest)"
  using assms by (induction rest) simp_all

lemma np_size_np_array: "np_size (np_array testX) = 2 * length testX"
  by (simp add: np_size_def np_array_def)

lemma length_elems_np_array: "length (elems (np_array testX)) = 2 * length testX"
  by (induction testX) (simp_all add: np_array_def)

lemma reshape_np_array:
  "reshape (np_array testX) r c =
     (if 2 * length testX = r * c
      then Inr \<lparr>shape = [r, c], elems = concat (map (\<lambda>row. [fst row, snd row]) testX)\<rparr>
      else Inl (ShapeError (2 * length testX) [r, c]))"
  by (simp add: reshape_def np_size_np_array) (simp add: np_array_def)


lemma discretize_nonempty:
  assumes "py_max (map abs (column0 t)) = Inr m0" "py_max (map abs (column1 t)) = Inr m1"
  shows "discretize t r =
     (if 2 * length t = r * r
      then Inr \<lparr>shape = [r, r],
                elems = concat (map (\<lambda>row. [np_div (fst row) m0, np_div (snd row) m1]) t)\<rparr>
      else Inl (ShapeError (2 * length t) [r, r]))"
  by (simp add: discretize_def normalise_rows_map[OF assms] reshape_np_array comp_def)



lemma ingest_loaded:
  "loadtxt (folder file_i) = Inr tbl \<Longrightarrow>
   ingest loadtxt n_points file_i = discretize (take n_points tbl) (res n_points)"
  by (simp add: ingest_def)




section \<open>Normalization by the axis maximum\<close>

lemma abs_le_Max_fst: "row \<in> set t \<Longrightarrow> \<bar>fst row\<bar> \<le> Max (abs ` fst ` set t)"
  by (rule Max_ge) auto

lemma abs_le_Max_snd: "row \<in> set t \<Longrightarrow> \<bar>snd row\<bar> \<le> Max (abs ` snd ` set t)"
  by (rule Max_ge) auto

lemma np_div_finite:
  assumes "m \<noteq> 0" "\<bar>a\<bar> \<le> m"
  shows "np_div a m = Fin (a / m)" and "\<bar>a / m\<bar> \<le> 1"
proof -
  from assms show "np_div a m = Fin (a / m)" by (simp add: np_div_def)
  from assms have "0 < m" by linarith
  with assms(2) show "\<bar>a / m\<bar> \<le> 1" by (simp add: abs_divide)
qed

lemma np_div_zero_max:
  assumes "\<bar>a\<bar> \<le> m" "m = 0"
  shows "np_div a m = NaN"
  using assms by (simp add: np_div_def)

text \<open>
  Claim C6, as amended. For every non-empty trajectory, normalization divides each
  coordinate by the maximum absolute value observed on its axis. There is no check for a
  zero maximum and no division is skipped: when the maximum is nonzero every normalized
  value is finite and lies in \<open>[-1, 1]\<close>; when it is zero (the axis is identically zero)
  every entry of that axis is \<open>0 / 0\<close>, which NumPy evaluates to NaN without raising.
\<close>

theorem normalise_divides_by_axis_maximum:
  assumes "test_i \<noteq> []"
  shows "\<exists>m0 m1.
      py_max (map abs (column0 test_i)) = Inr m0 \<and> m0 = Max (abs ` fst ` set test_i)
    \<and> py_max (map abs (column1 test_i)) = Inr m1 \<and> m1 = Max (abs ` snd ` set test_i)
    \<and> normalise_rows test_i test_i
          = Inr (map (\<lambda>row. (np_div (fst row) m0, np_div (snd row) m1)) test_i)
    \<and> (m0 \<noteq> 0 \<longrightarrow>
          (\<forall>row \<in> set test_i. np_div (fst row) m0 = Fin (fst row / m0) \<and> \<bar>fst row / m0\<bar> \<le> 1))
    \<and> (m1 \<noteq> 0 \<longrightarrow>
          (\<forall>row \<in> set test_i. np_div (snd row) m1 = Fin (snd row / m1) \<and> \<bar>snd row / m1\<bar> \<le> 1))
    \<and> (m0 = 0 \<longrightarrow> (\<forall>row \<in> set test_i. np_div (fst row) m0 = NaN))
    \<and> (m1 = 0 \<longrightarrow> (\<forall>row \<in> set test_i. np_div (snd row) m1 = NaN))"
proof -
  define m0 where "m0 = Max (abs ` fst ` set test_i)"
  define m1 where "m1 = Max (abs ` snd ` set test_i)"
  have p0: "py_max (map abs (column0 test_i)) = Inr m0"
    unfolding m0_def using assms by (rule py_max_column0)
  have p1: "py_max (map abs (column1 test_i)) = Inr m1"
    unfolding m1_def using assms by (rule py_max_column1)
  have nr: "normalise_rows test_i test_i
          = Inr (map (\<lambda>row. (np_div (fst row) m0, np_div (snd row) m1)) test_i)"
    using p0 p1 by (rule normalise_rows_map)
  have b0: "\<bar>fst row\<bar> \<le> m0" if "row \<in> set test_i" for row
    unfolding m0_def using that by (rule abs_le_Max_fst)
  have b1: "\<bar>snd row\<bar> \<le> m1" if "row \<in> set test_i" for row
    unfolding m1_def using that by (rule abs_le_Max_snd)
  have f0: "m0 \<noteq> 0 \<longrightarrow>
      (\<forall>row \<in> set test_i. np_div (fst row) m0 = Fin (fst row / m0) \<and> \<bar>fst row / m0\<bar> \<le> 1)"
    using np_div_finite b0 by blast
  have f1: "m1 \<noteq> 0 \<longrightarrow>
      (\<forall>row \<in> set test_i. np_div (snd row) m1 = Fin (snd row / m1) \<and> \<bar>snd row / m1\<bar> \<le> 1)"
    using np_div_finite b1 by blast
  have z0: "m0 = 0 \<longrightarrow> (\<forall>row \<in> set test_i. np_div (fst row) m0 = NaN)"
    using np_div_zero_max b0 by blast
  have z1: "m1 = 0 \<longrightarrow> (\<forall>row \<in> set test_i. np_div (snd row) m1 = NaN)"
    using np_div_zero_max b1 by blast
  from p0 p1 nr f0 f1 z0 z1 m0_def m1_def show ?thesis by blast
qed

theorem normalise_divides_by_axis_maximum_witness:
  "normalise_rows [(0, 1), (0, - 2)] [(0, 1), (0, - 2)] = Inr [(NaN, Fin (1 / 2)), (NaN, Fin (- 1))]"
proof -
  have h: "[(0, 1), (0, - 2) :: real \<times> real] \<noteq> []" by simp
  show ?thesis
    using normalise_divides_by_axis_maximum[OF h] by (auto simp: np_div_def)
qed

text \<open>
  The claim as stated fails: for a trajectory whose x-coordinates are all zero the
  maximum of the axis is zero, and the normalized x-coordinates are NaN, not the
  coordinates as they were.
\<close>

theorem zero_axis_not_skipped_counterexample:
  "py_max (map abs (column0 [(0, 3), (0, 4)])) = Inr 0
   \<and> normalise_rows [(0, 3), (0, 4)] [(0, 3), (0, 4)] = Inr [(NaN, Fin (3 / 4)), (NaN, Fin 1)]
   \<and> normalise_rows [(0, 3), (0, 4)] [(0, 3), (0, 4)] \<noteq> Inr [(Fin 0, Fin (3 / 4)), (Fin 0, Fin 1)]"
  by code_simp

section \<open>The ingested grid\<close>

text \<open>
  The grid that one file is ingested into, when its truncated table is not empty and
  fits the resolution.
\<close>

lemma ingest_grid:
  assumes "loadtxt (folder file_i) = Inr tbl"
    and "take n_points tbl \<noteq> []"
    and "2 * length (take n_points tbl) = res n_points * res n_points"
  shows "ingest loadtxt n_points file_i =
     Inr \<lparr>shape = [res n_points, res n_points],
          elems = concat (map (\<lambda>row. [np_div (fst row) (Max (abs ` fst ` set (take n_points tbl))),
                                       np_div (snd row) (Max (abs ` snd ` set (take n_points tbl)))])
                           (take n_points tbl))\<rparr>"
  using discretize_nonempty[OF py_max_column0[OF assms(2)] py_max_column1[OF assms(2)], of "res n_points"]
    assms(3)
  by (simp add: ingest_loaded[where loadtxt = loadtxt, OF assms(1)])

lemma Max_abs_fst_pos:
  fixes t :: table
  assumes "row \<in> set t" "fst row \<noteq> 0"
  shows "0 < Max (abs ` fst ` set t)"
proof -
  have "0 < \<bar>fst row\<bar>" using assms(2) by simp
  also have "\<dots> \<le> Max (abs ` fst ` set t)" using assms(1) by (rule abs_le_Max_fst)
  finally show ?thesis .
qed

lemma Max_abs_snd_pos:
  fixes t :: table
  assumes "row \<in> set t" "snd row \<noteq> 0"
  shows "0 < Max (abs ` snd ` set t)"
proof -
  have "0 < \<bar>snd row\<bar>" using assms(2) by simp
  also have "\<dots> \<le> Max (abs ` snd ` set t)" using assms(1) by (rule abs_le_Max_snd)
  finally show ?thesis .
qed

lemma length_concat_pairs: "length (concat (map (\<lambda>row. [f row, g row]) xs)) = 2 * length xs"
  by (induction xs) simp_all

lemma set_concat_pairs:
  "set (concat (map (\<lambda>row. [f row, g row]) xs)) = f ` set xs \<union> g ` set xs"
  by (induction xs) auto

lemma concat_pairs_nth:
  "k < 2 * length xs \<Longrightarrow>
   concat (map (\<lambda>row. [f row, g row]) xs) ! k
     = (if even k then f (xs ! (k div 2)) else g (xs ! (k div 2)))"
proof (induction xs arbitrary: k)
  case Nil
  then show ?case by simp
next
  case (Cons x xs)
  show ?case
  proof (cases k)
    case 0
    then show ?thesis by simp
  next
    case (Suc k1)
    show ?thesis
    proof (cases k1)
      case 0
      with Suc show ?thesis by simp
    next
      case (Suc k2)
      with \<open>k = Suc k1\<close> Cons.prems have "k2 < 2 * length xs" by simp
      from Cons.IH[OF this] Suc \<open>k = Suc k1\<close> show ?thesis by simp
    qed
  qed
qed

text \<open>
  Claim C7, as amended. Ingesting a two-column file of 450 rows with \<open>n_points = 450\<close>
  (resolution 30) yields a two-dimensional grid of shape \<open>30 \<times> 30\<close>, with 900 entries,
  each of them finite and within \<open>[-1, 1]\<close>, for every file whose axis maxima are nonzero
  (some x-coordinate and some y-coordinate is not zero).
\<close>

theorem ingest_450_grid_in_unit_range:
  assumes "loadtxt (folder file_i) = Inr tbl"
    and "length tbl = 450"
    and "\<exists>row \<in> set tbl. fst row \<noteq> 0"
    and "\<exists>row \<in> set tbl. snd row \<noteq> 0"
  shows "\<exists>g. ingest loadtxt 450 file_i = Inr g
     \<and> shape g = [30, 30]
     \<and> length (elems g) = 900
     \<and> (\<forall>v \<in> set (elems g). \<exists>x. v = Fin x \<and> - 1 \<le> x \<and> x \<le> 1)"
proof -
  define m0 where "m0 = Max (abs ` fst ` set tbl)"
  define m1 where "m1 = Max (abs ` snd ` set tbl)"
  have tk: "take 450 tbl = tbl" using assms(2) by simp
  have ne: "take 450 tbl \<noteq> []" using assms(2) tk by auto
  have sz: "2 * length (take 450 tbl) = res 450 * res 450"
    using assms(2) by (simp add: res_450)
  have g: "ingest loadtxt 450 file_i =
     Inr \<lparr>shape = [30, 30],
          elems = concat (map (\<lambda>row. [np_div (fst row) m0, np_div (snd row) m1]) tbl)\<rparr>"
    using ingest_grid[where loadtxt = loadtxt, OF assms(1) ne sz]
    by (simp add: tk res_450 m0_def m1_def)
  have m0: "0 < m0" unfolding m0_def using assms(3) Max_abs_fst_pos by blast
  have m1: "0 < m1" unfolding m1_def using assms(4) Max_abs_snd_pos by blast
  have r0: "\<exists>x. np_div (fst row) m0 = Fin x \<and> - 1 \<le> x \<and> x \<le> 1" if "row \<in> set tbl" for row
  proof -
    have "\<bar>fst row\<bar> \<le> m0" unfolding m0_def using that by (rule abs_le_Max_fst)
    with m0 have d: "np_div (fst row) m0 = Fin (fst row / m0)" and a: "\<bar>fst row / m0\<bar> \<le> 1"
      using np_div_finite[of m0 "fst row"] by simp_all
    from a have "- 1 \<le> fst row / m0 \<and> fst row / m0 \<le> 1" by linarith
    with d show ?thesis by blast
  qed
  have r1: "\<exists>x. np_div (snd row) m1 = Fin x \<and> - 1 \<le> x \<and> x \<le> 1" if "row \<in> set tbl" for row
  proof -
    have "\<bar>snd row\<bar> \<le> m1" unfolding m1_def using that by (rule abs_le_Max_snd)
    with m1 have d: "np_div (snd row) m1 = Fin (snd row / m1)" and a: "\<bar>snd row / m1\<bar> \<le> 1"
      using np_div_finite[of m1 "snd row"] by simp_all
    from a have "- 1 \<le> snd row / m1 \<and> snd row / m1 \<le> 1" by linarith
    with d show ?thesis by blast
  qed
  have all: "\<forall>v \<in> set (concat (map (\<lambda>row. [np_div (fst row) m0, np_div (snd row) m1]) tbl)).
      \<exists>x. v = Fin x \<and> - 1 \<le> x \<and> x \<le> 1"
    unfolding set_concat_pairs using r0 r1 by blast
  have len: "length (concat (map (\<lambda>row. [np_div (fst row) m0, np_div (snd row) m1]) tbl)) = 900"
    unfolding length_concat_pairs using assms(2) by simp
  show ?thesis
    unfolding g using all len by simp
qed

theorem ingest_450_grid_in_unit_range_witness:
  "\<exists>g. ingest (\<lambda>path. Inr (replicate 450 (5, - 5))) 450 ''001'' = Inr g
     \<and> shape g = [30, 30] \<and> length (elems g) = 900"
proof -
  have h2: "length (replicate 450 (5, - 5 :: real)) = 450" by simp
  have h3: "\<exists>row \<in> set (replicate 450 (5, - 5 :: real)). fst row \<noteq> (0::real)" by simp
  have h4: "\<exists>row \<in> set (replicate 450 (5, - 5 :: real)). snd row \<noteq> (0::real)" by simp
  show ?thesis
    using ingest_450_grid_in_unit_range[where loadtxt = "\<lambda>path. Inr (replicate 450 (5, - 5))"
        and file_i = "''001''" and tbl = "replicate 450 (5, - 5)", OF _ h2 h3 h4]
    by blast
qed

text \<open>
  The claim as stated gives the grid the shape \<open>30 \<times> 30 \<times> 1\<close>. The ingestion loop ends with
  \<^verbatim>\<open>testX.reshape(res,res)\<close>: the grid it appends is two-dimensional and has no trailing
  channel axis.
\<close>

theorem ingest_grid_has_no_channel_axis_counterexample:
  "\<exists>g. ingest (\<lambda>path. Inr (replicate 450 (1, - 2))) 450 ''001'' = Inr g
     \<and> shape g = [30, 30] \<and> shape g \<noteq> [30, 30, 1]"
proof -
  have ne: "take 450 (replicate 450 (1, - 2 :: real)) \<noteq> []" by simp
  have sz: "2 * length (take 450 (replicate 450 (1, - 2 :: real))) = res 450 * res 450"
    by (simp add: res_450)
  show ?thesis
    using ingest_grid[where loadtxt = "\<lambda>path. Inr (replicate 450 (1, - 2))"
        and file_i = "''001''" and tbl = "replicate 450 (1, - 2)", OF _ ne sz]
    by (simp add: res_450)
qed

text \<open>
  Claim C10. For a trajectory of \<open>n_points\<close> pairs with \<open>res * res = 2 * n_points\<close>, the grid
  is the row-major reshape of the interleaved sequence \<open>x0, y0, x1, y1, ...\<close>: cell
  \<open>(i, j)\<close> holds the normalized x-coordinate of point \<open>(res * i + j) / 2\<close> when
  \<open>res * i + j\<close> is even, and the normalized y-coordinate of point \<open>(res * i + j - 1) / 2\<close>
  when it is odd. (\<open>m0\<close> and \<open>m1\<close> are the axis maxima of the truncated table.)
\<close>

theorem grid_is_row_major_interleaving:
  assumes "loadtxt (folder file_i) = Inr tbl"
    and "n_points \<le> length tbl"
    and "res n_points * res n_points = 2 * n_points"
    and "i < res n_points" and "j < res n_points"
  shows "\<exists>g m0 m1. ingest loadtxt n_points file_i = Inr g
     \<and> shape g = [res n_points, res n_points]
     \<and> py_max (map abs (column0 (take n_points tbl))) = Inr m0
     \<and> py_max (map abs (column1 (take n_points tbl))) = Inr m1
     \<and> cell g i j =
         (if even (res n_points * i + j)
          then np_div (fst (tbl ! ((res n_points * i + j) div 2))) m0
          else np_div (snd (tbl ! ((res n_points * i + j - 1) div 2))) m1)"
proof -
  define r where "r = res n_points"
  define k where "k = r * i + j"
  define t where "t = take n_points tbl"
  define m0 where "m0 = Max (abs ` fst ` set t)"
  define m1 where "m1 = Max (abs ` snd ` set t)"
  have lt: "length t = n_points" unfolding t_def using assms(2) by simp
  have "r * i + j < r * i + r" using assms(5) by (simp add: r_def)
  also have "\<dots> = r * Suc i" by simp
  also have "\<dots> \<le> r * r" using assms(4) unfolding r_def by (intro mult_le_mono2) simp
  finally have kr: "k < r * r" unfolding k_def .
  then have k2: "k < 2 * length t" using assms(3) lt by (simp add: r_def)
  then have ne: "t \<noteq> []" by auto
  have sz: "2 * length t = r * r" using assms(3) lt by (simp add: r_def)
  have p0: "py_max (map abs (column0 t)) = Inr m0" unfolding m0_def using ne by (rule py_max_column0)
  have p1: "py_max (map abs (column1 t)) = Inr m1" unfolding m1_def using ne by (rule py_max_column1)
  have g: "ingest loadtxt n_points file_i =
     Inr \<lparr>shape = [r, r], elems = concat (map (\<lambda>row. [np_div (fst row) m0, np_div (snd row) m1]) t)\<rparr>"
    using ingest_grid[where loadtxt = loadtxt, OF assms(1) ne[unfolded t_def] sz[unfolded t_def r_def]]
    by (simp add: r_def m0_def m1_def t_def)
  have nth: "t ! (k div 2) = tbl ! (k div 2)"
    unfolding t_def using k2 lt by (intro nth_take) simp
  have odd: "odd k \<Longrightarrow> (k - 1) div 2 = k div 2"
    by (auto elim: oddE)
  have c: "cell \<lparr>shape = [r, r], elems = concat (map (\<lambda>row. [np_div (fst row) m0, np_div (snd row) m1]) t)\<rparr> i j
      = (if even k then np_div (fst (tbl ! (k div 2))) m0 else np_div (snd (tbl ! ((k - 1) div 2))) m1)"
    using concat_pairs_nth[OF k2, of "\<lambda>row. np_div (fst row) m0" "\<lambda>row. np_div (snd row) m1"] nth odd
    by (simp add: cell_def k_def mult.commute)
  show ?thesis
    using g p0 p1 c unfolding r_def k_def t_def by auto
qed

theorem grid_is_row_major_interleaving_witness:
  "\<exists>g. ingest (\<lambda>path. Inr [(1, 2), (3, 4), (100, 200)]) 2 ''001'' = Inr g
     \<and> shape g = [2, 2] \<and> cell g 0 1 = Fin (1 / 2) \<and> cell g 1 0 = Fin 1"
proof -
  have h2: "2 \<le> length [(1, 2), (3, 4), (100, 200 :: real)]" by simp
  have r: "res 2 = 2" by (simp add: res_eq_iff)
  have h3: "res 2 * res 2 = 2 * 2" by (simp add: r)
  have h4: "0 < res 2" and h5: "1 < res 2" by (simp_all add: r)
  show ?thesis
    using grid_is_row_major_interleaving[where loadtxt = "\<lambda>path. Inr [(1, 2), (3, 4), (100, 200)]"
        and file_i = "''001''" and tbl = "[(1, 2), (3, 4), (100, 200)]", OF _ h2 h3 h4 h5]
      grid_is_row_major_interleaving[where loadtxt = "\<lambda>path. Inr [(1, 2), (3, 4), (100, 200)]"
        and file_i = "''001''" and tbl = "[(1, 2), (3, 4), (100, 200)]", OF _ h2 h3 h5 h4]
    by (auto simp: r column1_def column0_def np_div_def)
qed

section \<open>Grids and labels stay paired\<close>

text \<open>
  The shuffle indexes both arrays with the same index array, and both slices cut both
  arrays at the same bounds: pairs stay pairs.
\<close>

lemma is_permutation_bound: "is_permutation p n \<Longrightarrow> i \<in> set p \<Longrightarrow> i < n"
  using is_permutation_set[of p n] by simp

lemma zip_map_same: "zip (map f p) (map g p) = map (\<lambda>i. (f i, g i)) p"
  by (induction p) simp_all

lemma zip_shuffled:
  assumes "length X = length y" "is_permutation p (length X)"
  shows "zip (map ((!) X) p) (map ((!) y) p) = map ((!) (zip X y)) p"
proof -
  have "zip (map ((!) X) p) (map ((!) y) p) = map (\<lambda>i. (X ! i, y ! i)) p"
    by (rule zip_map_same)
  also have "\<dots> = map ((!) (zip X y)) p"
  proof (rule map_cong[OF refl])
    fix i assume "i \<in> set p"
    then have "i < length X" using assms(2) by (rule is_permutation_bound[rotated])
    then show "(X ! i, y ! i) = zip X y ! i" using assms(1) by simp
  qed
  finally show ?thesis .
qed

lemma mset_permuted:
  assumes "is_permutation p (length zs)"
  shows "mset (map ((!) zs) p) = mset zs"
proof -
  have "mset (map ((!) zs) p) = image_mset ((!) zs) (mset p)" by simp
  also have "\<dots> = image_mset ((!) zs) (mset [0..<length zs])"
    using is_permutation_mset[OF assms] by simp
  also have "\<dots> = mset (map ((!) zs) [0..<length zs])" by simp
  also have "\<dots> = mset zs" by (simp only: map_nth)
  finally show ?thesis .
qed

lemma zip_slice_upto:
  "length Xs = length ys \<Longrightarrow> zip (slice_upto Xs k) (slice_upto ys k) = slice_upto (zip Xs ys) k"
  by (simp add: slice_upto_def take_zip)

lemma zip_slice_from:
  "length Xs = length ys \<Longrightarrow> zip (slice_from Xs k) (slice_from ys k) = slice_from (zip Xs ys) k"
  by (simp add: slice_from_def drop_zip)

lemma length_slice_upto_eq:
  "length Xs = length ys \<Longrightarrow> length (slice_upto Xs k) = length (slice_upto ys k)"
  by (simp add: slice_upto_def)

lemma length_slice_from_eq:
  "length Xs = length ys \<Longrightarrow> length (slice_from Xs k) = length (slice_from ys k)"
  by (simp add: slice_from_def)

text \<open>
  The two loops that build a dataset append one grid and one label per step; the
  invariant is stated for any starting accumulator.
\<close>

lemma assemble_acc:
  "assemble make_grid es acc = Inr (G, L) \<Longrightarrow>
   \<exists>gs. G = fst acc @ gs \<and> L = snd acc @ map label es
      \<and> list_all2 (\<lambda>e g. make_grid e = Inr g) es gs"
proof (induction es arbitrary: acc)
  case Nil
  then show ?case by auto
next
  case (Cons e es)
  from Cons.prems obtain g where g: "make_grid e = Inr g"
    and rest: "assemble make_grid es (fst acc @ [g], snd acc @ [label e]) = Inr (G, L)"
    by (auto split: if_splits sum.splits)
  from Cons.IH[OF rest] obtain gs where
    "G = (fst acc @ [g]) @ gs" "L = (snd acc @ [label e]) @ map label es"
    "list_all2 (\<lambda>e g. make_grid e = Inr g) es gs"
    by auto
  with g have "G = fst acc @ (g # gs) \<and> L = snd acc @ map label (e # es)
      \<and> list_all2 (\<lambda>e g. make_grid e = Inr g) (e # es) (g # gs)"
    by simp
  then show ?case by blast
qed

lemma ingest_loop_acc:
  "ingest_loop loadtxt n dat s0 = (r, s) \<Longrightarrow>
   \<exists>k gs. k \<le> length dat
      \<and> data_JHMAP_orbits s = data_JHMAP_orbits s0 @ gs
      \<and> data_JHMAP_labels s = data_JHMAP_labels s0 @ map snd (take k dat)
      \<and> list_all2 (\<lambda>d g. ingest loadtxt n (fst d) = Inr g) (take k dat) gs
      \<and> (r = None \<longrightarrow> k = length dat)"
proof (induction dat arbitrary: s0)
  case Nil
  then show ?case by auto
next
  case (Cons d dat)
  show ?case
  proof (cases "ingest loadtxt n (fst d)")
    case (Inl e)
    with Cons.prems have "s = s0" "r = Some e" by simp_all
    then have "0 \<le> length (d # dat)
      \<and> data_JHMAP_orbits s = data_JHMAP_orbits s0 @ []
      \<and> data_JHMAP_labels s = data_JHMAP_labels s0 @ map snd (take 0 (d # dat))
      \<and> list_all2 (\<lambda>d g. ingest loadtxt n (fst d) = Inr g) (take 0 (d # dat)) []
      \<and> (r = None \<longrightarrow> 0 = length (d # dat))"
      by simp
    then show ?thesis by blast
  next
    case (Inr g)
    let ?s1 = "s0\<lparr>data_JHMAP_orbits := data_JHMAP_orbits s0 @ [g],
                   data_JHMAP_labels := data_JHMAP_labels s0 @ [snd d]\<rparr>"
    from Inr Cons.prems have "ingest_loop loadtxt n dat ?s1 = (r, s)" by simp
    from Cons.IH[OF this] obtain k gs where k: "k \<le> length dat"
      and o: "data_JHMAP_orbits s = data_JHMAP_orbits ?s1 @ gs"
      and l: "data_JHMAP_labels s = data_JHMAP_labels ?s1 @ map snd (take k dat)"
      and a: "list_all2 (\<lambda>d g. ingest loadtxt n (fst d) = Inr g) (take k dat) gs"
      and n: "r = None \<longrightarrow> k = length dat"
      by blast
    from k o l a n Inr have "Suc k \<le> length (d # dat)
      \<and> data_JHMAP_orbits s = data_JHMAP_orbits s0 @ (g # gs)
      \<and> data_JHMAP_labels s = data_JHMAP_labels s0 @ map snd (take (Suc k) (d # dat))
      \<and> list_all2 (\<lambda>d g. ingest loadtxt n (fst d) = Inr g) (take (Suc k) (d # dat)) (g # gs)
      \<and> (r = None \<longrightarrow> Suc k = length (d # dat))"
      by simp
    then show ?thesis by blast
  qed
qed

text \<open>
  Claim C2. After assembly the Grids and Labels sequences have equal length and grid
  \<open>i\<close> is the grid of entry \<open>i\<close>, whose label is label \<open>i\<close>. The shuffle then cannot
  fail; it applies the one index array \<open>p\<close> to both sequences, so the shuffled pairs are
  the original pairs, permuted; the training and validation subsets are slices of the
  shuffled pairs, each with as many grids as labels. After ingestion, whether the loop
  finished (\<open>r = None\<close>) or stopped at a file that could not be ingested, the orbit list
  and the label list have equal length, and orbit \<open>i\<close> is the grid of file \<open>i\<close>, paired
  with the class given for file \<open>i\<close>.
\<close>

theorem grids_and_labels_stay_paired:
  assumes "assemble make_grid entries ([], []) = Inr (Grids, Labels)"
    and "is_permutation p (length Grids)"
    and "ingest_loop loadtxt n_points dat \<lparr>data_JHMAP_orbits = [], data_JHMAP_labels = []\<rparr> = (r, s)"
  shows "length Grids = length Labels
    \<and> Labels = map label entries
    \<and> list_all2 (\<lambda>e g. make_grid e = Inr g) entries Grids
    \<and> (\<exists>Xs ys tr va.
          shuffle p Grids Labels = Inr (Xs, ys)
        \<and> length Xs = length ys
        \<and> zip Xs ys = map ((!) (zip Grids Labels)) p
        \<and> mset (zip Xs ys) = mset (zip Grids Labels)
        \<and> train_val_split p f Grids Labels = Inr (tr, va)
        \<and> length (fst tr) = length (snd tr)
        \<and> length (fst va) = length (snd va)
        \<and> zip (fst tr) (snd tr) = slice_upto (zip Xs ys) (py_int (f * real (length Grids)))
        \<and> zip (fst va) (snd va) = slice_from (zip Xs ys) (- py_int ((1 - f) * real (length Grids))))
    \<and> length (data_JHMAP_orbits s) = length (data_JHMAP_labels s)
    \<and> (\<exists>k \<le> length dat.
          data_JHMAP_labels s = map snd (take k dat)
        \<and> list_all2 (\<lambda>d g. ingest loadtxt n_points (fst d) = Inr g) (take k dat) (data_JHMAP_orbits s)
        \<and> (r = None \<longrightarrow> k = length dat))"
proof -
  from assemble_acc[OF assms(1)]
  have L: "Labels = map label entries"
    and G: "list_all2 (\<lambda>e g. make_grid e = Inr g) entries Grids"
    by simp_all
  from G have "length entries = length Grids" by (rule list_all2_lengthD)
  with L have len: "length Grids = length Labels" by simp
  let ?Xs = "map ((!) Grids) p" and ?ys = "map ((!) Labels) p"
  have sh: "shuffle p Grids Labels = Inr (?Xs, ?ys)" using len by (rule shuffle_ok)
  have lxy: "length ?Xs = length ?ys" by simp
  have z: "zip ?Xs ?ys = map ((!) (zip Grids Labels)) p"
    using len assms(2) by (rule zip_shuffled)
  have "is_permutation p (length (zip Grids Labels))" using assms(2) len by simp
  then have m: "mset (zip ?Xs ?ys) = mset (zip Grids Labels)"
    unfolding z by (rule mset_permuted)
  have sp: "train_val_split p f Grids Labels =
      Inr (data_train f (int (length Grids)) (?Xs, ?ys), data_val f (int (length Grids)) (?Xs, ?ys))"
    using len by (rule train_val_split_ok)
  have split: "\<exists>Xs ys tr va.
          shuffle p Grids Labels = Inr (Xs, ys)
        \<and> length Xs = length ys
        \<and> zip Xs ys = map ((!) (zip Grids Labels)) p
        \<and> mset (zip Xs ys) = mset (zip Grids Labels)
        \<and> train_val_split p f Grids Labels = Inr (tr, va)
        \<and> length (fst tr) = length (snd tr)
        \<and> length (fst va) = length (snd va)
        \<and> zip (fst tr) (snd tr) = slice_upto (zip Xs ys) (py_int (f * real (length Grids)))
        \<and> zip (fst va) (snd va) = slice_from (zip Xs ys) (- py_int ((1 - f) * real (length Grids)))"
    apply (rule exI[of _ ?Xs], rule exI[of _ ?ys])
    apply (rule exI[of _ "data_train f (int (length Grids)) (?Xs, ?ys)"])
    apply (rule exI[of _ "data_val f (int (length Grids)) (?Xs, ?ys)"])
    using sh z m sp zip_slice_upto[OF lxy] zip_slice_from[OF lxy]
      length_slice_upto_eq[OF lxy] length_slice_from_eq[OF lxy]
    by (simp add: data_train_def data_val_def)
  from ingest_loop_acc[OF assms(3)] obtain k gs where k: "k \<le> length dat"
      and o: "data_JHMAP_orbits s = gs"
      and l: "data_JHMAP_labels s = map snd (take k dat)"
      and a: "list_all2 (\<lambda>d g. ingest loadtxt n_points (fst d) = Inr g) (take k dat) gs"
      and n: "r = None \<longrightarrow> k = length dat"
    by auto
  from a have "length (take k dat) = length gs" by (rule list_all2_lengthD)
  with o l have leq: "length (data_JHMAP_orbits s) = length (data_JHMAP_labels s)" by simp
  have ing: "\<exists>k \<le> length dat.
          data_JHMAP_labels s = map snd (take k dat)
        \<and> list_all2 (\<lambda>d g. ingest loadtxt n_points (fst d) = Inr g) (take k dat) (data_JHMAP_orbits s)
        \<and> (r = None \<longrightarrow> k = length dat)"
    using k o l a n by blast
  from len L G split leq ing show ?thesis by blast
qed

theorem grids_and_labels_stay_paired_witness:
  "train_val_split [2, 0, 1] (2 / 3) [1 / 10, 95 / 100, 8 / 10 :: real] [1, 0, 1 :: int]
     = Inr (([8 / 10, 1 / 10], [1, 1]), ([95 / 100], [0]))
   \<and> (\<exists>Xs ys. shuffle [2, 0, 1] [1 / 10, 95 / 100, 8 / 10 :: real] [1, 0, 1 :: int] = Inr (Xs, ys)
         \<and> mset (zip Xs ys) = mset (zip [1 / 10, 95 / 100, 8 / 10] [1, 0, 1]))
   \<and> ingest_loop
         (\<lambda>path. if path = folder ''001'' then Inr [(1, 2), (3, 4)] else Inl (LoadError path))
         2 [(''001'', 1), (''002'', 0)] \<lparr>data_JHMAP_orbits = [], data_JHMAP_labels = []\<rparr>
       = (Some (LoadError (folder ''002'')),
          \<lparr>data_JHMAP_orbits = [\<lparr>shape = [2, 2], elems = [Fin (1 / 3), Fin (1 / 2), Fin 1, Fin 1]\<rparr>],
           data_JHMAP_labels = [1]\<rparr>)"
proof -
  let ?entries = "[\<lparr>K = 1 / 10, x0 = 1 / 100, y0 = 0, label = 1, multiplier = 1\<rparr>,
                   \<lparr>K = 95 / 100, x0 = 3, y0 = - 4, label = 0, multiplier = 1\<rparr>,
                   \<lparr>K = 8 / 10, x0 = 3, y0 = 8, label = 1, multiplier = 1\<rparr>]"
  let ?ld = "\<lambda>path. if path = folder ''001'' then Inr [(1, 2), (3, 4)] else Inl (LoadError path)"
  let ?g = "\<lparr>shape = [2, 2], elems = [Fin (1 / 3), Fin (1 / 2), Fin 1, Fin 1]\<rparr>"
  have h1: "assemble (\<lambda>e. Inr (K e)) ?entries ([], []) = Inr ([1 / 10, 95 / 100, 8 / 10], [1, 0, 1])"
    by simp
  have h2: "is_permutation [2, 0, 1] (length [1 / 10, 95 / 100, 8 / 10 :: real])"
    by code_simp
  have h3: "ingest_loop ?ld 2 [(''001'', 1), (''002'', 0)]
        \<lparr>data_JHMAP_orbits = [], data_JHMAP_labels = []\<rparr>
      = (Some (LoadError (folder ''002'')), \<lparr>data_JHMAP_orbits = [?g], data_JHMAP_labels = [1]\<rparr>)"
    by code_simp
  have ev: "train_val_split [2, 0, 1] (2 / 3) [1 / 10, 95 / 100, 8 / 10 :: real] [1, 0, 1 :: int]
     = Inr (([8 / 10, 1 / 10], [1, 1]), ([95 / 100], [0]))"
    by code_simp
  have sh: "\<exists>Xs ys. shuffle [2, 0, 1] [1 / 10, 95 / 100, 8 / 10 :: real] [1, 0, 1 :: int] = Inr (Xs, ys)
         \<and> mset (zip Xs ys) = mset (zip [1 / 10, 95 / 100, 8 / 10] [1, 0, 1])"
    using grids_and_labels_stay_paired[OF h1 h2 h3, of "2 / 3"] by blast
  from ev sh h3 show ?thesis by blast
qed

text \<open>The notebook's own list of 21 files: when every file is ingested, 21 grids and labels.\<close>

lemma data_JHMAP_complete:
  assumes "data_JHMAP loadtxt n_points = (None, s)"
  shows "length (data_JHMAP_orbits s) = 21"
    and "data_JHMAP_labels s = [1, 1, 0, 0, 0, 0, 1, 1, 1, 1, 0, 0, 0, 0, 0, 0, 0, 0, 1, 1, 1]"
proof -
  from ingest_loop_acc[OF assms[unfolded data_JHMAP_def]] obtain k gs where
      o: "data_JHMAP_orbits s = gs"
      and l: "data_JHMAP_labels s = map snd (take k data)"
      and a: "list_all2 (\<lambda>d g. ingest loadtxt n_points (fst d) = Inr g) (take k data) gs"
      and k: "k = length data"
    by auto
  from a have "length (take k data) = length gs" by (rule list_all2_lengthD)
  with o k show "length (data_JHMAP_orbits s) = 21" by (simp add: data_def)
  from l k show "data_JHMAP_labels s = [1, 1, 0, 0, 0, 0, 1, 1, 1, 1, 0, 0, 0, 0, 0, 0, 0, 0, 1, 1, 1]"
    by (simp add: data_def)
qed

end
